theory Spec2Isabelle
  imports Main "HOL-Library.Word"
begin

unbundle bit_operations_syntax

section \<open>The fast column extractor (src/fast.c)\<close>

subsection \<open>Store and globals\<close>

text \<open>
  Addresses are natural numbers, 0 is the null pointer. The store is split by object
  type: one heap of \<open>char\<close> objects and one of \<open>sqlite3_int64\<close> objects, each a
  partial map whose domain is the set of live objects. The two targets handed to
  \<open>fastconfig\<close> are objects of different types, so they live in different heaps.
  Every store through a pointer is also appended to \<open>writes\<close>, the trace of the
  memory writes done so far.
\<close>

type_synonym addr = nat

datatype mem_write = WChar addr "8 word" | WInt64 addr "64 word"

datatype fault = NullPointer | InvalidPointer

record fast_state =
  iflagptr :: addr
  outintptr :: addr
  chars :: "addr \<rightharpoonup> 8 word"
  int64s :: "addr \<rightharpoonup> 64 word"
  writes :: "mem_write list"

text \<open>\<^verbatim>\<open>char* iflagptr = 0; sqlite3_int64* outintptr = 0;\<close>\<close>

definition init_state :: "(addr \<rightharpoonup> 8 word) \<Rightarrow> (addr \<rightharpoonup> 64 word) \<Rightarrow> fast_state" where
  "init_state cs ls = \<lparr>iflagptr = 0, outintptr = 0, chars = cs, int64s = ls, writes = []\<rparr>"

text \<open>
  \<^verbatim>\<open>*p = v\<close> for a \<open>char*\<close> and for a \<open>sqlite3_int64*\<close>. The C code does not check
  the pointer; a store through the null pointer or through a pointer to no live
  object is undefined behaviour, which the model returns as a fault.
\<close>

definition store_char :: "addr \<Rightarrow> 8 word \<Rightarrow> fast_state \<Rightarrow> fault + fast_state" where
  "store_char p v s =
     (if p = 0 then Inl NullPointer
      else case chars s p of
             None \<Rightarrow> Inl InvalidPointer
           | Some _ \<Rightarrow> Inr (s\<lparr>chars := (chars s)(p \<mapsto> v), writes := writes s @ [WChar p v]\<rparr>))"

definition store_int64 :: "addr \<Rightarrow> 64 word \<Rightarrow> fast_state \<Rightarrow> fault + fast_state" where
  "store_int64 p v s =
     (if p = 0 then Inl NullPointer
      else case int64s s p of
             None \<Rightarrow> Inl InvalidPointer
           | Some _ \<Rightarrow> Inr (s\<lparr>int64s := (int64s s)(p \<mapsto> v), writes := writes s @ [WInt64 p v]\<rparr>))"

subsection \<open>fastconfig\<close>

definition fastconfig :: "addr \<Rightarrow> addr \<Rightarrow> fast_state \<Rightarrow> fast_state" where
  "fastconfig flag outint s = s\<lparr>iflagptr := flag, outintptr := outint\<rparr>"

subsection \<open>sqlite3_column_int_fast\<close>

text \<open>
  \<open>sqlite3_column_int64\<close> belongs to the database engine and is a parameter
  \<open>column_int64\<close> of the model. The comparison \<^verbatim>\<open>i64 > 0x7fffffff\<close> is a signed
  64-bit comparison. The cast \<^verbatim>\<open>(int)i64\<close> keeps the low 32 bits. In the overflow
  branch control reaches the closing brace without a \<^verbatim>\<open>return\<close>: the call yields no
  value, \<open>None\<close>.
\<close>

definition sqlite3_column_int_fast ::
  "('stmt \<Rightarrow> 32 word \<Rightarrow> 64 word) \<Rightarrow> 'stmt \<Rightarrow> 32 word \<Rightarrow> fast_state
     \<Rightarrow> fault + (32 word option \<times> fast_state)" where
  "sqlite3_column_int_fast column_int64 pStmt iCol s =
     (let i64 = column_int64 pStmt iCol in
      if 0x7fffffff <s i64 then
        (case store_char (iflagptr s) 1 s of
           Inl f \<Rightarrow> Inl f
         | Inr s1 \<Rightarrow>
             (case store_int64 (outintptr s1) i64 s1 of
                Inl f \<Rightarrow> Inl f
              | Inr s2 \<Rightarrow> Inr (None, s2)))
      else
        (case store_char (iflagptr s) 0 s of
           Inl f \<Rightarrow> Inl f
         | Inr s1 \<Rightarrow> Inr (Some (ucast i64), s1)))"

subsection \<open>The precondition on the targets\<close>

text \<open>
  \<open>flag_configured\<close>: the configured flag target is a live \<open>char\<close> object.
  \<open>configured\<close>: both configured targets are live objects.
\<close>

definition flag_configured :: "fast_state \<Rightarrow> bool" where
  "flag_configured s \<longleftrightarrow> iflagptr s \<noteq> 0 \<and> chars s (iflagptr s) \<noteq> None"

definition configured :: "fast_state \<Rightarrow> bool" where
  "configured s \<longleftrightarrow>
     flag_configured s \<and> outintptr s \<noteq> 0 \<and> int64s s (outintptr s) \<noteq> None"

text \<open>The writes a call has added to the trace, and where a write goes.\<close>

definition new_writes :: "fast_state \<Rightarrow> fast_state \<Rightarrow> mem_write list" where
  "new_writes s s' = drop (length (writes s)) (writes s')"

fun is_char_write :: "mem_write \<Rightarrow> bool" where
  "is_char_write (WChar p v) = True"
| "is_char_write (WInt64 p v) = False"

fun writes_to :: "addr \<Rightarrow> addr \<Rightarrow> mem_write \<Rightarrow> bool" where
  "writes_to flag outint (WChar p v) = (p = flag)"
| "writes_to flag outint (WInt64 p v) = (p = outint)"

subsection \<open>A session of calls\<close>

text \<open>
  A caller's session is a list of calls of the two functions, run in order from a
  state; it stops at the first fault. The result lists what each
  \<open>sqlite3_column_int_fast\<close> call returned.
\<close>

datatype 'stmt fast_call = Fastconfig addr addr | Column_int_fast 'stmt "32 word"

fun run :: "('stmt \<Rightarrow> 32 word \<Rightarrow> 64 word) \<Rightarrow> 'stmt fast_call list \<Rightarrow> fast_state
              \<Rightarrow> fault + (32 word option list \<times> fast_state)" where
  "run column_int64 [] s = Inr ([], s)"
| "run column_int64 (Fastconfig flag outint # cs) s =
     run column_int64 cs (fastconfig flag outint s)"
| "run column_int64 (Column_int_fast pStmt iCol # cs) s =
     (case sqlite3_column_int_fast column_int64 pStmt iCol s of
        Inl f \<Rightarrow> Inl f
      | Inr (r, s1) \<Rightarrow>
          (case run column_int64 cs s1 of
             Inl f \<Rightarrow> Inl f
           | Inr (rs, s2) \<Rightarrow> Inr (r # rs, s2)))"


text \<open>The extraction calls for a list of statements and column indices.\<close>

definition extracts :: "('stmt \<times> 32 word) list \<Rightarrow> 'stmt fast_call list" where
  "extracts ps = map (\<lambda>(pStmt, iCol). Column_int_fast pStmt iCol) ps"

text \<open>
  An example: a store with two \<open>char\<close> objects at 10 and 11 and two
  \<open>sqlite3_int64\<close> objects at 20 and 21, configured with the targets 10 and 20, and
  a column reader that returns the statement itself.
\<close>

definition example_state :: fast_state where
  "example_state =
     fastconfig 10 20 (init_state [10 \<mapsto> 7, 11 \<mapsto> 7] [20 \<mapsto> 5, 21 \<mapsto> 5])"

definition example_column :: "64 word \<Rightarrow> 32 word \<Rightarrow> 64 word" where
  "example_column pStmt iCol = pStmt"

section \<open>The benchmark driver (src/bench/bench.c)\<close>

subsection \<open>The database engine and the C library\<close>

text \<open>
  The benchmark is client code of the SQLite engine and of the C library, neither of
  which is part of the repository. They are a parameter of the model: a record of
  the constants of \<open>sqlite3.h\<close> the code names and of the functions it calls, each
  function a transformer of an engine state \<open>'e\<close>. \<open>'db\<close> and \<open>'stmt\<close> are the
  connection and statement handles. Return codes the code ignores are left out;
  \<open>sqlite3_step\<close> returns its code. \<open>clock\<close> returns its reading.
\<close>

type_synonym clock_t = int

record ('e, 'db, 'stmt) api =
  SQLITE_ROW :: "32 word"
  SQLITE_OPEN_READWRITE :: "32 word"
  SQLITE_OPEN_PRIVATECACHE :: "32 word"
  SQLITE_OPEN_NOMUTEX :: "32 word"
  SQLITE_OPEN_CREATE :: "32 word"
  sqlite3_initialize :: "'e \<Rightarrow> 'e"
  sqlite3_open_v2 :: "string \<Rightarrow> 32 word \<Rightarrow> 'e \<Rightarrow> 'db \<times> 'e"
  sqlite3_prepare_v2 :: "'db \<Rightarrow> string \<Rightarrow> 'e \<Rightarrow> 'stmt \<times> 'e"
  sqlite3_exec :: "'db \<Rightarrow> string \<Rightarrow> 'e \<Rightarrow> 'e"
  sqlite3_step :: "'stmt \<Rightarrow> 'e \<Rightarrow> 32 word \<times> 'e"
  sqlite3_column_int :: "'stmt \<Rightarrow> 32 word \<Rightarrow> 'e \<Rightarrow> 32 word \<times> 'e"
  sqlite3_reset :: "'stmt \<Rightarrow> 'e \<Rightarrow> 'e"
  sqlite3_finalize :: "'stmt \<Rightarrow> 'e \<Rightarrow> 'e"
  sqlite3_close :: "'db \<Rightarrow> 'e \<Rightarrow> 'e"
  sqlite3_shutdown :: "'e \<Rightarrow> 'e"
  clock :: "'e \<Rightarrow> clock_t \<times> 'e"
  atoi :: "string \<Rightarrow> 32 word"

text \<open>
  What the program does to the outside is a trace of events, one for each call of the
  engine, of \<open>clock\<close> and of \<open>printf\<close>, in order. The floating-point arithmetic of
  \<open>bench\<close> is not modelled: a \<open>Printf\<close> event holds the format string, the two
  clock readings and the value of \<open>count\<close> that the two printed numbers are computed
  from.
\<close>

datatype ('db, 'stmt) event =
    Initialize
  | Open_v2 string "32 word"
  | Prepare_v2 'db string
  | Exec 'db string
  | Step 'stmt
  | Column_int 'stmt "32 word"
  | Reset 'stmt
  | Finalize 'stmt
  | Close 'db
  | Shutdown
  | Clock
  | Printf string clock_t clock_t "32 word"

record ('e, 'db, 'stmt) world =
  engine :: 'e
  trace :: "('db, 'stmt) event list"

definition call_initialize :: "('e, 'db, 'stmt) api \<Rightarrow> ('e, 'db, 'stmt) world \<Rightarrow> ('e, 'db, 'stmt) world" where
  "call_initialize a w = \<lparr>engine = sqlite3_initialize a (engine w), trace = trace w @ [Initialize]\<rparr>"

definition call_open_v2 ::
  "('e, 'db, 'stmt) api \<Rightarrow> string \<Rightarrow> 32 word \<Rightarrow> ('e, 'db, 'stmt) world \<Rightarrow> 'db \<times> ('e, 'db, 'stmt) world" where
  "call_open_v2 a filename flags w =
     (let (db, e) = sqlite3_open_v2 a filename flags (engine w)
      in (db, \<lparr>engine = e, trace = trace w @ [Open_v2 filename flags]\<rparr>))"

definition call_prepare_v2 ::
  "('e, 'db, 'stmt) api \<Rightarrow> 'db \<Rightarrow> string \<Rightarrow> ('e, 'db, 'stmt) world \<Rightarrow> 'stmt \<times> ('e, 'db, 'stmt) world" where
  "call_prepare_v2 a db sql w =
     (let (stmt, e) = sqlite3_prepare_v2 a db sql (engine w)
      in (stmt, \<lparr>engine = e, trace = trace w @ [Prepare_v2 db sql]\<rparr>))"

definition call_exec ::
  "('e, 'db, 'stmt) api \<Rightarrow> 'db \<Rightarrow> string \<Rightarrow> ('e, 'db, 'stmt) world \<Rightarrow> ('e, 'db, 'stmt) world" where
  "call_exec a db sql w = \<lparr>engine = sqlite3_exec a db sql (engine w), trace = trace w @ [Exec db sql]\<rparr>"

definition call_step ::
  "('e, 'db, 'stmt) api \<Rightarrow> 'stmt \<Rightarrow> ('e, 'db, 'stmt) world \<Rightarrow> 32 word \<times> ('e, 'db, 'stmt) world" where
  "call_step a stmt w =
     (let (rc, e) = sqlite3_step a stmt (engine w)
      in (rc, \<lparr>engine = e, trace = trace w @ [Step stmt]\<rparr>))"

definition call_column_int ::
  "('e, 'db, 'stmt) api \<Rightarrow> 'stmt \<Rightarrow> 32 word \<Rightarrow> ('e, 'db, 'stmt) world \<Rightarrow> 32 word \<times> ('e, 'db, 'stmt) world" where
  "call_column_int a stmt iCol w =
     (let (v, e) = sqlite3_column_int a stmt iCol (engine w)
      in (v, \<lparr>engine = e, trace = trace w @ [Column_int stmt iCol]\<rparr>))"

definition call_reset ::
  "('e, 'db, 'stmt) api \<Rightarrow> 'stmt \<Rightarrow> ('e, 'db, 'stmt) world \<Rightarrow> ('e, 'db, 'stmt) world" where
  "call_reset a stmt w = \<lparr>engine = sqlite3_reset a stmt (engine w), trace = trace w @ [Reset stmt]\<rparr>"

definition call_finalize ::
  "('e, 'db, 'stmt) api \<Rightarrow> 'stmt \<Rightarrow> ('e, 'db, 'stmt) world \<Rightarrow> ('e, 'db, 'stmt) world" where
  "call_finalize a stmt w = \<lparr>engine = sqlite3_finalize a stmt (engine w), trace = trace w @ [Finalize stmt]\<rparr>"

definition call_close ::
  "('e, 'db, 'stmt) api \<Rightarrow> 'db \<Rightarrow> ('e, 'db, 'stmt) world \<Rightarrow> ('e, 'db, 'stmt) world" where
  "call_close a db w = \<lparr>engine = sqlite3_close a db (engine w), trace = trace w @ [Close db]\<rparr>"

definition call_shutdown :: "('e, 'db, 'stmt) api \<Rightarrow> ('e, 'db, 'stmt) world \<Rightarrow> ('e, 'db, 'stmt) world" where
  "call_shutdown a w = \<lparr>engine = sqlite3_shutdown a (engine w), trace = trace w @ [Shutdown]\<rparr>"

definition call_clock :: "('e, 'db, 'stmt) api \<Rightarrow> ('e, 'db, 'stmt) world \<Rightarrow> clock_t \<times> ('e, 'db, 'stmt) world" where
  "call_clock a w =
     (let (t, e) = clock a (engine w)
      in (t, \<lparr>engine = e, trace = trace w @ [Clock]\<rparr>))"

definition call_printf ::
  "string \<Rightarrow> clock_t \<Rightarrow> clock_t \<Rightarrow> 32 word \<Rightarrow> ('e, 'db, 'stmt) world \<Rightarrow> ('e, 'db, 'stmt) world" where
  "call_printf fmt t0 t1 n w = w\<lparr>trace := trace w @ [Printf fmt t0 t1 n]\<rparr>"

subsection \<open>Globals\<close>

text \<open>\<^verbatim>\<open>int total = 5; int count = 1000000;\<close>\<close>

record globals =
  total_g :: "32 word"
  count :: "32 word"

definition init_globals :: globals where
  "init_globals = \<lparr>total_g = 5, count = 1000000\<rparr>"

subsection \<open>The function \<open>get_version\<close>\<close>

definition get_version ::
  "('e, 'db, 'stmt) api \<Rightarrow> 'stmt \<Rightarrow> ('e, 'db, 'stmt) world \<Rightarrow> 32 word \<times> ('e, 'db, 'stmt) world" where
  "get_version a stmt w =
     (let (rc, w1) = call_step a stmt w in
      if rc = SQLITE_ROW a then
        (let (val, w2) = call_column_int a stmt 0 w1;
             w3 = call_reset a stmt w2
         in (val, w3))
      else
        (let w2 = call_finalize a stmt w1
         in (0, w2)))"

subsection \<open>bench\<close>

text \<open>
  \<^verbatim>\<open>for (int i = 0; i < count; i++) get_version(stmt);\<close> The functions \<open>bench\<close> and
  \<open>get_version\<close> write no global, so they take the globals as an argument and
  return the world only. The comparison is signed; \<open>i\<close> stays below \<open>count\<close>, so
  \<open>i++\<close> cannot overflow.
\<close>

function bench_loop ::
  "('e, 'db, 'stmt) api \<Rightarrow> 'stmt \<Rightarrow> globals \<Rightarrow> 32 word \<Rightarrow> ('e, 'db, 'stmt) world \<Rightarrow> ('e, 'db, 'stmt) world" where
  "bench_loop a stmt g i w =
     (if i <s count g then bench_loop a stmt g (i + 1) (snd (get_version a stmt w)) else w)"
  by pat_completeness auto
termination
proof (relation "measure (\<lambda>(a, stmt, g, i, w). nat (sint (count g) - sint i))")
  show "wf (measure (\<lambda>(a, stmt, g, i, w). nat (sint (count g) - sint i)))"
    by simp
next
  fix a :: "('e, 'db, 'stmt) api" and stmt :: 'stmt and g :: globals and i :: "32 word"
    and w :: "('e, 'db, 'stmt) world"
  assume lt: "i <s count g"
  have "sint i < sint (count g)"
    using lt by (simp add: word_sless_alt)
  moreover have "sint (count g) < 2 ^ 31"
    using sint_lt [of "count g"] by simp
  moreover have "- (2 ^ 31) \<le> sint i"
    using sint_ge [of i] by simp
  ultimately have "sint (i + 1) = sint i + 1"
    by (simp add: sint_word_ariths signed_take_bit_int_eq_self)
  then show "((a, stmt, g, i + 1, snd (get_version a stmt w)), (a, stmt, g, i, w))
      \<in> measure (\<lambda>(a, stmt, g, i, w). nat (sint (count g) - sint i))"
    using \<open>sint i < sint (count g)\<close> by simp
qed

definition timing_format :: string where
  "timing_format = ''time %.0f ms rate %.0f'' @ [CHR 0x0A]"

definition bench ::
  "('e, 'db, 'stmt) api \<Rightarrow> 'stmt \<Rightarrow> globals \<Rightarrow> ('e, 'db, 'stmt) world \<Rightarrow> ('e, 'db, 'stmt) world" where
  "bench a stmt g w =
     (let (t_start, w1) = call_clock a w;
          w2 = bench_loop a stmt g 0 w1;
          (t_end, w3) = call_clock a w2
      in call_printf timing_format t_start t_end (count g) w3)"

subsection \<open>main\<close>

text \<open>
  \<^verbatim>\<open>if (argc > 1) total = atoi(argv[1]); if (argc > 2) count = atoi(argv[2]);\<close>
  \<open>argv\<close> is the list of the arguments, the program's name first; \<open>argc\<close> is its
  length.
\<close>

definition main_args :: "('e, 'db, 'stmt) api \<Rightarrow> string list \<Rightarrow> globals \<Rightarrow> globals" where
  "main_args a argv g =
     (let g1 = (if 1 < length argv then g\<lparr>total_g := atoi a (argv ! 1)\<rparr> else g);
          g2 = (if 2 < length argv then g1\<lparr>count := atoi a (argv ! 2)\<rparr> else g1)
      in g2)"

text \<open>
  \<^verbatim>\<open>while (total--) bench(stmt);\<close> The old value of \<open>total\<close> is tested and \<open>total\<close>
  is decremented, also on the test that leaves the loop. Decrementing the least
  \<open>int\<close> is a signed overflow, undefined behaviour, which the model returns as a
  fault.
\<close>

datatype bench_fault = SignedOverflow

function main_loop ::
  "('e, 'db, 'stmt) api \<Rightarrow> 'stmt \<Rightarrow> globals \<Rightarrow> ('e, 'db, 'stmt) world
     \<Rightarrow> bench_fault + (globals \<times> ('e, 'db, 'stmt) world)" where
  "main_loop a stmt g w =
     (let t = total_g g in
      if t = - 2147483648 then Inl SignedOverflow
      else
        (let g1 = g\<lparr>total_g := t - 1\<rparr> in
         if t \<noteq> 0 then main_loop a stmt g1 (bench a stmt g1 w)
         else Inr (g1, w)))"
  by pat_completeness auto
termination
proof (relation "measure (\<lambda>(a, stmt, g, w). unat (total_g g))")
  show "wf (measure (\<lambda>(a, stmt, g, w). unat (total_g g)))"
    by simp
next
  fix a :: "('e, 'db, 'stmt) api" and stmt :: 'stmt and g :: globals
    and w :: "('e, 'db, 'stmt) world" and t :: "32 word" and g1 :: globals
  assume "t = total_g g" and "g1 = g\<lparr>total_g := t - 1\<rparr>" and "t \<noteq> 0"
  then show "((a, stmt, g1, bench a stmt g1 w), (a, stmt, g, w))
      \<in> measure (\<lambda>(a, stmt, g, w). unat (total_g g))"
    by (simp add: unat_minus_one unat_gt_0)
qed

definition main ::
  "('e, 'db, 'stmt) api \<Rightarrow> string list \<Rightarrow> globals \<Rightarrow> ('e, 'db, 'stmt) world
     \<Rightarrow> bench_fault + (globals \<times> ('e, 'db, 'stmt) world)" where
  "main a argv g w =
     (let g2 = main_args a argv g;
          w1 = call_initialize a w;
          flags = SQLITE_OPEN_READWRITE a OR SQLITE_OPEN_PRIVATECACHE a
                    OR SQLITE_OPEN_NOMUTEX a OR SQLITE_OPEN_CREATE a;
          (db, w2) = call_open_v2 a '':memory:'' flags w1;
          (stmt, w3) = call_prepare_v2 a db ''pragma user_version'' w2;
          w4 = call_exec a db ''PRAGMA auto_vacuum = none'' w3;
          w5 = call_exec a db ''PRAGMA temp_store = memory'' w4;
          w6 = call_exec a db ''PRAGMA locking_mode = exclusive'' w5;
          w7 = call_exec a db ''PRAGMA user_version = 100'' w6
      in case main_loop a stmt g2 w7 of
           Inl f \<Rightarrow> Inl f
         | Inr (g3, w8) \<Rightarrow>
             (let w9 = call_finalize a stmt w8;
                  w10 = call_close a db w9;
                  w11 = call_shutdown a w10
              in Inr (g3, w11)))"

text \<open>The process: \<open>main\<close> from the initial globals and an empty trace.\<close>

definition process ::
  "('e, 'db, 'stmt) api \<Rightarrow> string list \<Rightarrow> 'e \<Rightarrow> bench_fault + (globals \<times> ('e, 'db, 'stmt) world)" where
  "process a argv e = main a argv init_globals \<lparr>engine = e, trace = []\<rparr>"

subsection \<open>Reading the trace\<close>

text \<open>
  The lines a trace prints: each \<open>printf\<close> prints one line for each newline of its
  format string (a \<open>%.0f\<close> conversion prints no newline). The steps and the
  bench cycle of a trace.
\<close>

fun event_lines :: "('db, 'stmt) event \<Rightarrow> nat" where
  "event_lines (Printf fmt t0 t1 n) = count_list fmt (CHR 0x0A)"
| "event_lines _ = 0"

definition lines_printed :: "('db, 'stmt) event list \<Rightarrow> nat" where
  "lines_printed tr = sum_list (map event_lines tr)"

fun is_step :: "('db, 'stmt) event \<Rightarrow> bool" where
  "is_step (Step stmt) = True"
| "is_step _ = False"

definition steps :: "('db, 'stmt) event list \<Rightarrow> nat" where
  "steps tr = length (filter is_step tr)"

definition cycle :: "'stmt \<Rightarrow> ('db, 'stmt) event list" where
  "cycle stmt = [Step stmt, Column_int stmt 0, Reset stmt]"

definition setup_trace :: "32 word \<Rightarrow> 'db \<Rightarrow> ('db, 'stmt) event list" where
  "setup_trace flags db =
     [Initialize, Open_v2 '':memory:'' flags, Prepare_v2 db ''pragma user_version'',
      Exec db ''PRAGMA auto_vacuum = none'', Exec db ''PRAGMA temp_store = memory'',
      Exec db ''PRAGMA locking_mode = exclusive'', Exec db ''PRAGMA user_version = 100'']"

definition teardown_trace :: "'db \<Rightarrow> 'stmt \<Rightarrow> ('db, 'stmt) event list" where
  "teardown_trace db stmt = [Finalize stmt, Close db, Shutdown]"

text \<open>The flags \<open>main\<close> opens the connection with.\<close>

definition open_flags :: "('e, 'db, 'stmt) api \<Rightarrow> 32 word" where
  "open_flags a = SQLITE_OPEN_READWRITE a OR SQLITE_OPEN_PRIVATECACHE a
                    OR SQLITE_OPEN_NOMUTEX a OR SQLITE_OPEN_CREATE a"

subsection \<open>An example engine\<close>

text \<open>
  A stand-in for the engine and the C library, to run the model on: its state counts
  the steps done, \<open>sqlite3_step\<close> returns the code \<open>rc\<close> on every call, column 0 is
  100, the clock reads the number of steps, and \<open>atoi\<close> reads an optional minus
  sign and the decimal digits that follow.
\<close>

definition digit_of :: "char \<Rightarrow> nat option" where
  "digit_of c =
     (let k = (of_char c :: nat) in if 48 \<le> k \<and> k \<le> 57 then Some (k - 48) else None)"

fun digits_value :: "nat \<Rightarrow> string \<Rightarrow> nat" where
  "digits_value acc [] = acc"
| "digits_value acc (c # cs) =
     (case digit_of c of None \<Rightarrow> acc | Some d \<Rightarrow> digits_value (10 * acc + d) cs)"

fun example_atoi :: "string \<Rightarrow> 32 word" where
  "example_atoi [] = 0"
| "example_atoi (c # cs) =
     (if c = CHR ''-'' then - of_nat (digits_value 0 cs) else of_nat (digits_value 0 (c # cs)))"

definition example_api :: "32 word \<Rightarrow> (nat, nat, nat) api" where
  "example_api rc =
     \<lparr>SQLITE_ROW = 100,
      SQLITE_OPEN_READWRITE = 0x2,
      SQLITE_OPEN_PRIVATECACHE = 0x40000,
      SQLITE_OPEN_NOMUTEX = 0x8000,
      SQLITE_OPEN_CREATE = 0x4,
      sqlite3_initialize = (\<lambda>e. e),
      sqlite3_open_v2 = (\<lambda>filename flags e. (1, e)),
      sqlite3_prepare_v2 = (\<lambda>db sql e. (2, e)),
      sqlite3_exec = (\<lambda>db sql e. e),
      sqlite3_step = (\<lambda>stmt e. (rc, Suc e)),
      sqlite3_column_int = (\<lambda>stmt iCol e. (100, e)),
      sqlite3_reset = (\<lambda>stmt e. e),
      sqlite3_finalize = (\<lambda>stmt e. e),
      sqlite3_close = (\<lambda>db e. e),
      sqlite3_shutdown = (\<lambda>e. e),
      clock = (\<lambda>e. (int e, e)),
      atoi = example_atoi\<rparr>"

section \<open>Properties of the extractor\<close>

subsection \<open>Narrowing a 64-bit value to 32 bits\<close>

lemma sint_narrow_signed_take_bit:
  "sint (ucast (v :: 64 word) :: 32 word) = signed_take_bit 31 (sint v)"
proof -
  have "sint (ucast v :: 32 word) = signed_take_bit 31 (uint v)"
    by (simp add: signed_ucast_eq)
  also have "\<dots> = signed_take_bit 31 (signed_take_bit 63 (uint v))"
    by simp
  also have "signed_take_bit 63 (uint v) = sint v"
    by (simp add: sint_uint)
  finally show ?thesis .
qed

lemma sint_narrow:
  "sint (ucast (v :: 64 word) :: 32 word) = (sint v + 2 ^ 31) mod 2 ^ 32 - 2 ^ 31"
  by (simp add: sint_narrow_signed_take_bit signed_take_bit_eq_take_bit_shift take_bit_eq_mod)

lemma overflows_iff: "0x7fffffff <s (v :: 64 word) \<longleftrightarrow> 2147483647 < sint v"
  by (simp add: word_sless_alt)

subsection \<open>The two branches\<close>

lemma fast_overflow:
  assumes "configured s" and "2147483647 < sint (c p i)"
  shows "sqlite3_column_int_fast c p i s =
     Inr (None, s\<lparr>chars := (chars s)(iflagptr s \<mapsto> 1),
                   int64s := (int64s s)(outintptr s \<mapsto> c p i),
                   writes := writes s @ [WChar (iflagptr s) 1, WInt64 (outintptr s) (c p i)]\<rparr>)"
  using assms
  by (auto simp: sqlite3_column_int_fast_def configured_def flag_configured_def
        store_char_def store_int64_def overflows_iff Let_def)

lemma fast_fits:
  assumes "flag_configured s" and "sint (c p i) \<le> 2147483647"
  shows "sqlite3_column_int_fast c p i s =
     Inr (Some (ucast (c p i)), s\<lparr>chars := (chars s)(iflagptr s \<mapsto> 0),
                   writes := writes s @ [WChar (iflagptr s) 0]\<rparr>)"
  using assms
  by (auto simp: sqlite3_column_int_fast_def flag_configured_def
        store_char_def overflows_iff Let_def)

lemma example_state_configured: "configured example_state"
  by (simp add: example_state_def configured_def flag_configured_def fastconfig_def init_state_def)

lemma example_state_flag_configured: "flag_configured example_state"
  using example_state_configured by (simp add: configured_def)

lemma example_state_targets:
  "iflagptr example_state = 10" "outintptr example_state = 20"
  by (simp_all add: example_state_def fastconfig_def)

lemma example_state_store:
  "int64s example_state = [20 \<mapsto> 5, 21 \<mapsto> 5]" "writes example_state = []"
  by (simp_all add: example_state_def fastconfig_def init_state_def)

subsection \<open>Claims about one call\<close>

text \<open>
  C1. When the column value exceeds 2147483647 and both targets are configured, the
  call stores 1 in the flag target and the whole 64-bit value in the value target,
  by these two writes and no other, and returns no value.
\<close>

theorem extract_overflow:
  assumes "configured s" and "2147483647 < sint (column_int64 pStmt iCol)"
  shows "\<exists>s'. sqlite3_column_int_fast column_int64 pStmt iCol s = Inr (None, s')
           \<and> chars s' (iflagptr s) = Some 1
           \<and> int64s s' (outintptr s) = Some (column_int64 pStmt iCol)
           \<and> new_writes s s' =
               [WChar (iflagptr s) 1, WInt64 (outintptr s) (column_int64 pStmt iCol)]"
  using fast_overflow [of s column_int64 pStmt iCol, OF assms] by (simp add: new_writes_def)

theorem extract_overflow_witness:
  "configured example_state \<and> 2147483647 < sint (example_column 2147483648 0) \<and>
   (\<exists>s'. sqlite3_column_int_fast example_column 2147483648 0 example_state = Inr (None, s')
           \<and> chars s' 10 = Some 1 \<and> int64s s' 20 = Some 2147483648
           \<and> new_writes example_state s' = [WChar 10 1, WInt64 20 2147483648])"
proof -
  have v: "2147483647 < sint (example_column 2147483648 0)"
    by (simp add: example_column_def)
  show ?thesis
    using example_state_configured v
      extract_overflow [of example_state example_column 2147483648 0, OF example_state_configured v]
    by (simp add: example_state_targets example_column_def)
qed

text \<open>
  C2. When the column value is negative and the flag target is configured, the call
  stores 0 in the flag target and returns the low 32 bits of the value, read as a
  signed 32-bit integer: the value reduced modulo \<open>2 ^ 32\<close> into the signed range.
  The flag write is the only write, so the value target is not written. This holds
  below the 32-bit minimum as well.
\<close>

theorem extract_negative:
  assumes "flag_configured s" and "sint (column_int64 pStmt iCol) < 0"
  shows "\<exists>r s'. sqlite3_column_int_fast column_int64 pStmt iCol s = Inr (Some r, s')
           \<and> chars s' (iflagptr s) = Some 0
           \<and> r = ucast (column_int64 pStmt iCol)
           \<and> sint r = (sint (column_int64 pStmt iCol) + 2 ^ 31) mod 2 ^ 32 - 2 ^ 31
           \<and> int64s s' = int64s s
           \<and> new_writes s s' = [WChar (iflagptr s) 0]"
proof -
  from assms(2) have "sint (column_int64 pStmt iCol) \<le> 2147483647"
    by simp
  from fast_fits [of s column_int64 pStmt iCol, OF assms(1) this] show ?thesis
    by (simp add: new_writes_def sint_narrow)
qed

theorem extract_negative_witness:
  "flag_configured example_state \<and> sint (example_column (- 2147483649) 0) < 0 \<and>
   (\<exists>r s'. sqlite3_column_int_fast example_column (- 2147483649) 0 example_state = Inr (Some r, s')
           \<and> chars s' 10 = Some 0
           \<and> sint r = 2147483647
           \<and> int64s s' = [20 \<mapsto> 5, 21 \<mapsto> 5]
           \<and> new_writes example_state s' = [WChar 10 0])"
proof -
  have v: "sint (example_column (- 2147483649) 0) < 0"
    by (simp add: example_column_def)
  from extract_negative [of example_state example_column "- 2147483649" 0,
      OF example_state_flag_configured v]
  obtain r s' where
    "sqlite3_column_int_fast example_column (- 2147483649) 0 example_state = Inr (Some r, s')"
    and "chars s' (iflagptr example_state) = Some 0"
    and "sint r = (sint (example_column (- 2147483649) 0) + 2 ^ 31) mod 2 ^ 32 - 2 ^ 31"
    and "int64s s' = int64s example_state"
    and "new_writes example_state s' = [WChar (iflagptr example_state) 0]"
    by blast
  then have "sqlite3_column_int_fast example_column (- 2147483649) 0 example_state = Inr (Some r, s')
      \<and> chars s' 10 = Some 0 \<and> sint r = 2147483647
      \<and> int64s s' = [20 \<mapsto> 5, 21 \<mapsto> 5]
      \<and> new_writes example_state s' = [WChar 10 0]"
    by (simp add: example_state_targets example_state_store example_column_def)
  then show ?thesis
    using example_state_flag_configured v by blast
qed

text \<open>
  C3. When the column value is between 0 and 2147483647 and the flag target is
  configured, the call stores 0 in the flag target and returns the value unchanged.
\<close>

theorem extract_in_range:
  assumes "flag_configured s" and "0 \<le> sint (column_int64 pStmt iCol)"
    and "sint (column_int64 pStmt iCol) \<le> 2147483647"
  shows "\<exists>r s'. sqlite3_column_int_fast column_int64 pStmt iCol s = Inr (Some r, s')
           \<and> chars s' (iflagptr s) = Some 0
           \<and> sint r = sint (column_int64 pStmt iCol)"
proof -
  have "sint (ucast (column_int64 pStmt iCol) :: 32 word) = sint (column_int64 pStmt iCol)"
    using assms(2,3) by (simp add: sint_narrow)
  with fast_fits [of s column_int64 pStmt iCol, OF assms(1,3)] show ?thesis
    by simp
qed

theorem extract_in_range_witness:
  "flag_configured example_state \<and> 0 \<le> sint (example_column 2147483647 0)
   \<and> sint (example_column 2147483647 0) \<le> 2147483647 \<and>
   (\<exists>r s'. sqlite3_column_int_fast example_column 2147483647 0 example_state = Inr (Some r, s')
           \<and> chars s' 10 = Some 0 \<and> sint r = 2147483647)"
proof -
  have v: "0 \<le> sint (example_column 2147483647 0)"
    "sint (example_column 2147483647 0) \<le> 2147483647"
    by (simp_all add: example_column_def)
  show ?thesis
    using example_state_flag_configured v
      extract_in_range [of example_state example_column 2147483647 0,
        OF example_state_flag_configured v]
    by (simp add: example_state_targets example_column_def)
qed

text \<open>
  C4. When the column value does not exceed 2147483647 and the flag target is
  configured, the call leaves every \<open>sqlite3_int64\<close> object as it was, the value
  target among them, and none of its writes is a write of such an object.
\<close>

theorem extract_no_overflow_frame:
  assumes "flag_configured s" and "sint (column_int64 pStmt iCol) \<le> 2147483647"
  shows "\<exists>r s'. sqlite3_column_int_fast column_int64 pStmt iCol s = Inr (r, s')
           \<and> int64s s' = int64s s
           \<and> filter (\<lambda>w. \<not> is_char_write w) (new_writes s s') = []"
  using fast_fits [of s column_int64 pStmt iCol, OF assms] by (simp add: new_writes_def)

theorem extract_no_overflow_frame_witness:
  "flag_configured example_state \<and> sint (example_column 42 0) \<le> 2147483647 \<and>
   (\<exists>r s'. sqlite3_column_int_fast example_column 42 0 example_state = Inr (r, s')
           \<and> int64s s' = [20 \<mapsto> 5, 21 \<mapsto> 5]
           \<and> filter (\<lambda>w. \<not> is_char_write w) (new_writes example_state s') = [])"
proof -
  have v: "sint (example_column 42 0) \<le> 2147483647"
    by (simp add: example_column_def)
  show ?thesis
    using example_state_flag_configured v
      extract_no_overflow_frame [of example_state example_column 42 0,
        OF example_state_flag_configured v]
    by (simp add: example_state_store)
qed

subsection \<open>Sessions of calls\<close>

lemma extract_step:
  assumes "configured s"
  shows "\<exists>r s'. sqlite3_column_int_fast c p i s = Inr (r, s')
           \<and> configured s' \<and> iflagptr s' = iflagptr s \<and> outintptr s' = outintptr s
           \<and> chars s' (iflagptr s) = Some (if 2147483647 < sint (c p i) then 1 else 0)
           \<and> (\<forall>q. q \<noteq> iflagptr s \<longrightarrow> chars s' q = chars s q)
           \<and> (\<forall>q. q \<noteq> outintptr s \<longrightarrow> int64s s' q = int64s s q)
           \<and> (\<exists>ws. writes s' = writes s @ ws
                 \<and> filter is_char_write ws = [WChar (iflagptr s) (if 2147483647 < sint (c p i) then 1 else 0)]
                 \<and> (\<forall>w \<in> set ws. writes_to (iflagptr s) (outintptr s) w))"
proof (cases "2147483647 < sint (c p i)")
  case True
  from fast_overflow [of s c p i, OF assms True] show ?thesis
    using assms True by (simp add: configured_def flag_configured_def)
next
  case False
  then have le: "sint (c p i) \<le> 2147483647" by simp
  have fc: "flag_configured s" using assms by (simp add: configured_def)
  from fast_fits [of s c p i, OF fc le] show ?thesis
    using assms False by (simp add: configured_def flag_configured_def)
qed

lemma run_extracts:
  assumes "configured s"
  shows "\<exists>rs s'. run c (extracts ps) s = Inr (rs, s')
           \<and> configured s' \<and> iflagptr s' = iflagptr s \<and> outintptr s' = outintptr s
           \<and> (\<forall>q. q \<noteq> iflagptr s \<longrightarrow> chars s' q = chars s q)
           \<and> (\<forall>q. q \<noteq> outintptr s \<longrightarrow> int64s s' q = int64s s q)
           \<and> (\<exists>ws. writes s' = writes s @ ws
                 \<and> (\<forall>w \<in> set ws. writes_to (iflagptr s) (outintptr s) w))"
  using assms
proof (induction ps arbitrary: s)
  case Nil
  then show ?case by (simp add: extracts_def)
next
  case (Cons a ps)
  obtain p i where a: "a = (p, i)" by (cases a)
  from extract_step [OF Cons.prems, of c p i] obtain r s1 ws1 where
    1: "sqlite3_column_int_fast c p i s = Inr (r, s1)" "configured s1"
       "iflagptr s1 = iflagptr s" "outintptr s1 = outintptr s"
       "\<forall>q. q \<noteq> iflagptr s \<longrightarrow> chars s1 q = chars s q"
       "\<forall>q. q \<noteq> outintptr s \<longrightarrow> int64s s1 q = int64s s q"
       "writes s1 = writes s @ ws1" "\<forall>w \<in> set ws1. writes_to (iflagptr s) (outintptr s) w"
    by blast
  from Cons.IH [OF 1(2)] obtain rs s2 ws2 where
    2: "run c (extracts ps) s1 = Inr (rs, s2)" "configured s2"
       "iflagptr s2 = iflagptr s1" "outintptr s2 = outintptr s1"
       "\<forall>q. q \<noteq> iflagptr s1 \<longrightarrow> chars s2 q = chars s1 q"
       "\<forall>q. q \<noteq> outintptr s1 \<longrightarrow> int64s s2 q = int64s s1 q"
       "writes s2 = writes s1 @ ws2" "\<forall>w \<in> set ws2. writes_to (iflagptr s1) (outintptr s1) w"
    by blast
  have run: "run c (extracts (a # ps)) s = Inr (r # rs, s2)"
    using 1(1) 2(1) a by (simp add: extracts_def)
  have w: "writes s2 = writes s @ (ws1 @ ws2)"
    using 1(7) 2(7) by simp
  have all: "\<forall>w \<in> set (ws1 @ ws2). writes_to (iflagptr s) (outintptr s) w"
    using 1(3,4,8) 2(8) by auto
  have ptrs: "iflagptr s2 = iflagptr s" "outintptr s2 = outintptr s"
    using 1(3,4) 2(3,4) by simp_all
  have frame: "\<forall>q. q \<noteq> iflagptr s \<longrightarrow> chars s2 q = chars s q"
    "\<forall>q. q \<noteq> outintptr s \<longrightarrow> int64s s2 q = int64s s q"
    using 1(3,4,5,6) 2(5,6) by simp_all
  from w all have "\<exists>ws. writes s2 = writes s @ ws
      \<and> (\<forall>w \<in> set ws. writes_to (iflagptr s) (outintptr s) w)"
    by blast
  with run 2(2) ptrs frame show ?case
    by blast
qed

lemma run_append:
  "run c (cs @ ds) s =
     (case run c cs s of
        Inl f \<Rightarrow> Inl f
      | Inr (rs, s1) \<Rightarrow>
          (case run c ds s1 of Inl f \<Rightarrow> Inl f | Inr (rs', s2) \<Rightarrow> Inr (rs @ rs', s2)))"
  by (induction c cs s rule: run.induct) (auto split: sum.splits prod.splits)

lemma example_state_objects:
  "chars example_state 10 = Some 7" "chars example_state 11 = Some 7"
  "int64s example_state 20 = Some 5" "int64s example_state 21 = Some 5"
  by (simp_all add: example_state_def fastconfig_def init_state_def)

text \<open>
  C5. With both targets configured, every call writes the flag target exactly once:
  the writes of \<open>char\<close> objects it adds to the trace are one write of the flag
  target, of 1 when the column value exceeds 2147483647 and of 0 otherwise, and
  afterwards the flag is 1 exactly in the first case and 0 exactly in the second.
  After any session of extraction calls the flag is the one of the last call.
\<close>

theorem extract_flag_every_call:
  assumes "configured s"
  shows "(\<exists>r s'. sqlite3_column_int_fast column_int64 pStmt iCol s = Inr (r, s')
           \<and> filter is_char_write (new_writes s s') =
               [WChar (iflagptr s) (if 2147483647 < sint (column_int64 pStmt iCol) then 1 else 0)]
           \<and> (chars s' (iflagptr s) = Some 1 \<longleftrightarrow> 2147483647 < sint (column_int64 pStmt iCol))
           \<and> (chars s' (iflagptr s) = Some 0 \<longleftrightarrow> \<not> 2147483647 < sint (column_int64 pStmt iCol)))
       \<and> (\<exists>rs s'. run column_int64 (extracts (ps @ [(pStmt, iCol)])) s = Inr (rs, s')
           \<and> chars s' (iflagptr s) =
               Some (if 2147483647 < sint (column_int64 pStmt iCol) then 1 else 0))"
proof
  from extract_step [OF assms, of column_int64 pStmt iCol]
  show "\<exists>r s'. sqlite3_column_int_fast column_int64 pStmt iCol s = Inr (r, s')
           \<and> filter is_char_write (new_writes s s') =
               [WChar (iflagptr s) (if 2147483647 < sint (column_int64 pStmt iCol) then 1 else 0)]
           \<and> (chars s' (iflagptr s) = Some 1 \<longleftrightarrow> 2147483647 < sint (column_int64 pStmt iCol))
           \<and> (chars s' (iflagptr s) = Some 0 \<longleftrightarrow> \<not> 2147483647 < sint (column_int64 pStmt iCol))"
    by (auto simp: new_writes_def)
next
  from run_extracts [OF assms, of column_int64 ps] obtain rs s1 where
    1: "run column_int64 (extracts ps) s = Inr (rs, s1)" "configured s1"
       "iflagptr s1 = iflagptr s"
    by blast
  from extract_step [OF 1(2), of column_int64 pStmt iCol] obtain r s2 where
    2: "sqlite3_column_int_fast column_int64 pStmt iCol s1 = Inr (r, s2)"
       "chars s2 (iflagptr s1) = Some (if 2147483647 < sint (column_int64 pStmt iCol) then 1 else 0)"
    by blast
  have "run column_int64 (extracts (ps @ [(pStmt, iCol)])) s = Inr (rs @ [r], s2)"
    using 1(1) 2(1) by (simp add: extracts_def run_append)
  then show "\<exists>rs s'. run column_int64 (extracts (ps @ [(pStmt, iCol)])) s = Inr (rs, s')
           \<and> chars s' (iflagptr s) =
               Some (if 2147483647 < sint (column_int64 pStmt iCol) then 1 else 0)"
    using 2(2) 1(3) by simp
qed

theorem extract_flag_every_call_witness:
  "configured example_state \<and>
   (\<exists>r s'. sqlite3_column_int_fast example_column 5 0 example_state = Inr (r, s')
      \<and> filter is_char_write (new_writes example_state s') = [WChar 10 0]
      \<and> chars s' 10 = Some 0) \<and>
   (\<exists>rs s'. run example_column (extracts [(2147483648, 0), (5, 0)]) example_state = Inr (rs, s')
      \<and> chars s' 10 = Some 0)"
proof -
  have v: "\<not> 2147483647 < sint (example_column 5 0)"
    by (simp add: example_column_def)
  from extract_flag_every_call [OF example_state_configured, of example_column 5 0 "[(2147483648, 0)]"]
  have "(\<exists>r s'. sqlite3_column_int_fast example_column 5 0 example_state = Inr (r, s')
      \<and> filter is_char_write (new_writes example_state s') = [WChar 10 0]
      \<and> chars s' 10 = Some 0) \<and>
   (\<exists>rs s'. run example_column (extracts [(2147483648, 0), (5, 0)]) example_state = Inr (rs, s')
      \<and> chars s' 10 = Some 0)"
    by (simp add: v example_state_targets) blast
  then show ?thesis
    using example_state_configured by simp
qed

lemma run_extracts_effects:
  assumes "configured s"
  shows "\<exists>rs s'. run c (extracts ps) s = Inr (rs, s')
           \<and> length rs = length ps
           \<and> writes s' = writes s @ concat (map (\<lambda>(p, i).
                 if 2147483647 < sint (c p i)
                 then [WChar (iflagptr s) 1, WInt64 (outintptr s) (c p i)]
                 else [WChar (iflagptr s) 0]) ps)
           \<and> chars s' (iflagptr s) =
                (if ps = [] then chars s (iflagptr s)
                 else Some (if 2147483647 < sint (c (fst (last ps)) (snd (last ps))) then 1 else 0))
           \<and> int64s s' (outintptr s) =
                (let vs = filter (\<lambda>v. 2147483647 < sint v) (map (\<lambda>(p, i). c p i) ps)
                 in if vs = [] then int64s s (outintptr s) else Some (last vs))"
  using assms
proof (induction ps arbitrary: s)
  case Nil
  then show ?case by (simp add: extracts_def)
next
  case (Cons a ps)
  obtain p i where a: "a = (p, i)" by (cases a)
  let ?f = "iflagptr s" and ?o = "outintptr s"
  let ?ws = "if 2147483647 < sint (c p i)
             then [WChar ?f 1, WInt64 ?o (c p i)] else [WChar ?f 0]"
  have "\<exists>r s1. sqlite3_column_int_fast c p i s = Inr (r, s1) \<and> configured s1
        \<and> iflagptr s1 = ?f \<and> outintptr s1 = ?o
        \<and> writes s1 = writes s @ ?ws
        \<and> chars s1 ?f = Some (if 2147483647 < sint (c p i) then 1 else 0)
        \<and> int64s s1 ?o = (if 2147483647 < sint (c p i) then Some (c p i) else int64s s ?o)"
  proof (cases "2147483647 < sint (c p i)")
    case True
    from fast_overflow [of s c p i, OF Cons.prems True] show ?thesis
      using Cons.prems True by (simp add: configured_def flag_configured_def)
  next
    case False
    then have le: "sint (c p i) \<le> 2147483647" by simp
    have fc: "flag_configured s" using Cons.prems by (simp add: configured_def)
    from fast_fits [of s c p i, OF fc le] show ?thesis
      using Cons.prems False by (simp add: configured_def flag_configured_def)
  qed
  then obtain r s1 where
    1: "sqlite3_column_int_fast c p i s = Inr (r, s1)" "configured s1"
       "iflagptr s1 = ?f" "outintptr s1 = ?o"
       "writes s1 = writes s @ ?ws"
       "chars s1 ?f = Some (if 2147483647 < sint (c p i) then 1 else 0)"
       "int64s s1 ?o = (if 2147483647 < sint (c p i) then Some (c p i) else int64s s ?o)"
    by blast
  from Cons.IH [OF 1(2)] obtain rs s2 where
    2: "run c (extracts ps) s1 = Inr (rs, s2)" "length rs = length ps"
       "writes s2 = writes s1 @ concat (map (\<lambda>(p, i).
                 if 2147483647 < sint (c p i)
                 then [WChar (iflagptr s1) 1, WInt64 (outintptr s1) (c p i)]
                 else [WChar (iflagptr s1) 0]) ps)"
       "chars s2 (iflagptr s1) =
                (if ps = [] then chars s1 (iflagptr s1)
                 else Some (if 2147483647 < sint (c (fst (last ps)) (snd (last ps))) then 1 else 0))"
       "int64s s2 (outintptr s1) =
                (let vs = filter (\<lambda>v. 2147483647 < sint v) (map (\<lambda>(p, i). c p i) ps)
                 in if vs = [] then int64s s1 (outintptr s1) else Some (last vs))"
    by blast
  have run: "run c (extracts (a # ps)) s = Inr (r # rs, s2)"
    using 1(1) 2(1) a by (simp add: extracts_def)
  have len: "length (r # rs) = length (a # ps)"
    using 2(2) by simp
  have w: "writes s2 = writes s @ concat (map (\<lambda>(p, i).
                 if 2147483647 < sint (c p i)
                 then [WChar ?f 1, WInt64 ?o (c p i)]
                 else [WChar ?f 0]) (a # ps))"
    using 2(3) [unfolded 1(3) 1(4)] 1(5) a by simp
  have ch: "chars s2 ?f =
                (if a # ps = [] then chars s ?f
                 else Some (if 2147483647 < sint (c (fst (last (a # ps))) (snd (last (a # ps))))
                            then 1 else 0))"
    using 2(4) 1(3,6) a by simp
  have iv: "int64s s2 ?o =
                (let vs = filter (\<lambda>v. 2147483647 < sint v) (map (\<lambda>(p, i). c p i) (a # ps))
                 in if vs = [] then int64s s ?o else Some (last vs))"
    using 2(5) 1(4,7) a by (simp add: Let_def)
  from run len w ch iv show ?case
    by blast
qed

text \<open>
  C6. After \<open>fastconfig\<close> with two live targets, any number of extraction calls
  run without fault and each returns. The writes they make are, call by call, the
  write of the new flag target (1 on overflow, 0 otherwise) followed on overflow by
  the write of the column value to the new value target. Afterwards the new flag
  target holds the flag of the last call and the new value target the value of the
  last overflowing call. Every write is a write of one of the new targets, every
  other object is as it was before, and when the new targets differ from the old
  ones no write goes to an old target.
\<close>

theorem reconfigure_redirects:
  assumes "flag \<noteq> 0" and "chars s flag \<noteq> None" and "outint \<noteq> 0" and "int64s s outint \<noteq> None"
  shows "\<exists>rs s'. run column_int64 (Fastconfig flag outint # extracts ps) s = Inr (rs, s')
           \<and> length rs = length ps
           \<and> new_writes s s' = concat (map (\<lambda>(pStmt, iCol).
                 if 2147483647 < sint (column_int64 pStmt iCol)
                 then [WChar flag 1, WInt64 outint (column_int64 pStmt iCol)]
                 else [WChar flag 0]) ps)
           \<and> chars s' flag =
                (if ps = [] then chars s flag
                 else Some (if 2147483647 < sint (column_int64 (fst (last ps)) (snd (last ps)))
                            then 1 else 0))
           \<and> int64s s' outint =
                (let vs = filter (\<lambda>v. 2147483647 < sint v)
                            (map (\<lambda>(pStmt, iCol). column_int64 pStmt iCol) ps)
                 in if vs = [] then int64s s outint else Some (last vs))
           \<and> (\<forall>w \<in> set (new_writes s s'). writes_to flag outint w)
           \<and> (\<forall>q. q \<noteq> flag \<longrightarrow> chars s' q = chars s q)
           \<and> (\<forall>q. q \<noteq> outint \<longrightarrow> int64s s' q = int64s s q)
           \<and> (iflagptr s \<noteq> flag \<and> outintptr s \<noteq> outint \<longrightarrow>
                (\<forall>w \<in> set (new_writes s s'). \<not> writes_to (iflagptr s) (outintptr s) w))"
proof -
  let ?s0 = "fastconfig flag outint s"
  have c: "configured ?s0"
    using assms by (simp add: configured_def flag_configured_def fastconfig_def)
  from run_extracts [OF c, of column_int64 ps] obtain rs s' ws where
    1: "run column_int64 (extracts ps) ?s0 = Inr (rs, s')"
       "\<forall>q. q \<noteq> iflagptr ?s0 \<longrightarrow> chars s' q = chars ?s0 q"
       "\<forall>q. q \<noteq> outintptr ?s0 \<longrightarrow> int64s s' q = int64s ?s0 q"
       "writes s' = writes ?s0 @ ws"
       "\<forall>w \<in> set ws. writes_to (iflagptr ?s0) (outintptr ?s0) w"
    by blast
  from run_extracts_effects [OF c, of column_int64 ps] 1(1) have
    2: "length rs = length ps"
       "writes s' = writes ?s0 @ concat (map (\<lambda>(p, i).
                 if 2147483647 < sint (column_int64 p i)
                 then [WChar (iflagptr ?s0) 1, WInt64 (outintptr ?s0) (column_int64 p i)]
                 else [WChar (iflagptr ?s0) 0]) ps)"
       "chars s' (iflagptr ?s0) =
                (if ps = [] then chars ?s0 (iflagptr ?s0)
                 else Some (if 2147483647 < sint (column_int64 (fst (last ps)) (snd (last ps)))
                            then 1 else 0))"
       "int64s s' (outintptr ?s0) =
                (let vs = filter (\<lambda>v. 2147483647 < sint v)
                            (map (\<lambda>(p, i). column_int64 p i) ps)
                 in if vs = [] then int64s ?s0 (outintptr ?s0) else Some (last vs))"
    by auto
  have p0: "iflagptr ?s0 = flag" "outintptr ?s0 = outint" "writes ?s0 = writes s"
    by (simp_all add: fastconfig_def)
  have nw: "new_writes s s' = ws"
    using 1(4) by (simp add: new_writes_def fastconfig_def)
  have nw2: "new_writes s s' = concat (map (\<lambda>(pStmt, iCol).
                 if 2147483647 < sint (column_int64 pStmt iCol)
                 then [WChar flag 1, WInt64 outint (column_int64 pStmt iCol)]
                 else [WChar flag 0]) ps)"
    using 2(2) [unfolded p0] by (simp add: new_writes_def)
  have ch: "chars s' flag =
                (if ps = [] then chars s flag
                 else Some (if 2147483647 < sint (column_int64 (fst (last ps)) (snd (last ps)))
                            then 1 else 0))"
    using 2(3) by (simp add: fastconfig_def)
  have iv: "int64s s' outint =
                (let vs = filter (\<lambda>v. 2147483647 < sint v)
                            (map (\<lambda>(pStmt, iCol). column_int64 pStmt iCol) ps)
                 in if vs = [] then int64s s outint else Some (last vs))"
    using 2(4) by (simp add: fastconfig_def Let_def)
  have to_new: "\<forall>w \<in> set (new_writes s s'). writes_to flag outint w"
    using 1(5) nw by (simp add: fastconfig_def)
  have not_old: "\<not> writes_to f' o' w" if "writes_to flag outint w" "f' \<noteq> flag" "o' \<noteq> outint"
    for w f' o'
    using that by (cases w) auto
  have frame: "\<forall>q. q \<noteq> flag \<longrightarrow> chars s' q = chars s q"
    "\<forall>q. q \<noteq> outint \<longrightarrow> int64s s' q = int64s s q"
    using 1(2,3) by (simp_all add: fastconfig_def)
  have old: "iflagptr s \<noteq> flag \<and> outintptr s \<noteq> outint \<longrightarrow>
                (\<forall>w \<in> set (new_writes s s'). \<not> writes_to (iflagptr s) (outintptr s) w)"
    using to_new not_old by blast
  have r: "run column_int64 (Fastconfig flag outint # extracts ps) s = Inr (rs, s')"
    using 1(1) by simp
  from r 2(1) nw2 ch iv to_new frame old show ?thesis
    by blast
qed

theorem reconfigure_redirects_witness:
  "(11 :: addr) \<noteq> 0 \<and> chars example_state 11 \<noteq> None \<and> (21 :: addr) \<noteq> 0
   \<and> int64s example_state 21 \<noteq> None
   \<and> iflagptr example_state \<noteq> 11 \<and> outintptr example_state \<noteq> 21 \<and>
   (\<exists>rs s'. run example_column (Fastconfig 11 21 # extracts [(2147483648, 0), (5, 0)]) example_state
               = Inr (rs, s')
      \<and> length rs = 2
      \<and> new_writes example_state s' = [WChar 11 1, WInt64 21 2147483648, WChar 11 0]
      \<and> chars s' 11 = Some 0 \<and> int64s s' 21 = Some 2147483648
      \<and> (\<forall>w \<in> set (new_writes example_state s'). writes_to 11 21 w)
      \<and> chars s' 10 = Some 7 \<and> int64s s' 20 = Some 5
      \<and> (\<forall>w \<in> set (new_writes example_state s'). \<not> writes_to 10 20 w))"
proof -
  have h: "(11 :: addr) \<noteq> 0" "chars example_state 11 \<noteq> None" "(21 :: addr) \<noteq> 0"
    "int64s example_state 21 \<noteq> None"
    by (simp_all add: example_state_objects)
  have o: "iflagptr example_state \<noteq> 11" "outintptr example_state \<noteq> 21"
    by (simp_all add: example_state_targets)
  let ?ps = "[(2147483648, 0), (5, 0)] :: (64 word \<times> 32 word) list"
  from reconfigure_redirects [OF h, of example_column ?ps]
  obtain rs s' where
    r: "run example_column (Fastconfig 11 21 # extracts ?ps) example_state = Inr (rs, s')"
    and l: "length rs = length ?ps"
    and n: "new_writes example_state s' = concat (map (\<lambda>(pStmt, iCol).
                 if 2147483647 < sint (example_column pStmt iCol)
                 then [WChar 11 1, WInt64 21 (example_column pStmt iCol)]
                 else [WChar 11 0]) ?ps)"
    and f: "chars s' 11 =
                (if ?ps = [] then chars example_state 11
                 else Some (if 2147483647 < sint (example_column (fst (last ?ps)) (snd (last ?ps)))
                            then 1 else 0))"
    and v: "int64s s' 21 =
                (let vs = filter (\<lambda>v. 2147483647 < sint v)
                            (map (\<lambda>(pStmt, iCol). example_column pStmt iCol) ?ps)
                 in if vs = [] then int64s example_state 21 else Some (last vs))"
    and a: "\<forall>w \<in> set (new_writes example_state s'). writes_to 11 21 w"
    and b: "\<forall>q. q \<noteq> 11 \<longrightarrow> chars s' q = chars example_state q"
    and c: "\<forall>q. q \<noteq> 21 \<longrightarrow> int64s s' q = int64s example_state q"
    and d: "iflagptr example_state \<noteq> 11 \<and> outintptr example_state \<noteq> 21 \<longrightarrow>
              (\<forall>w \<in> set (new_writes example_state s').
                 \<not> writes_to (iflagptr example_state) (outintptr example_state) w)"
    by blast
  from l have l': "length rs = 2" by simp
  from n have n': "new_writes example_state s' = [WChar 11 1, WInt64 21 2147483648, WChar 11 0]"
    by (simp add: example_column_def)
  from f have f': "chars s' 11 = Some 0"
    by (simp add: example_column_def)
  from v have v': "int64s s' 21 = Some 2147483648"
    by (simp add: example_column_def)
  from b have b': "chars s' 10 = Some 7"
    by (simp add: example_state_objects)
  from c have c': "int64s s' 20 = Some 5"
    by (simp add: example_state_objects)
  from d have d': "\<forall>w \<in> set (new_writes example_state s'). \<not> writes_to 10 20 w"
    by (simp add: example_state_targets)
  show ?thesis
    using h o r l' n' f' v' a b' c' d' by blast
qed

section \<open>Properties of the benchmark driver\<close>

declare bench_loop.simps [simp del] main_loop.simps [simp del]

subsection \<open>One call of \<open>get_version\<close>\<close>

lemma get_version_no_row:
  assumes "fst (sqlite3_step a stmt (engine w)) \<noteq> SQLITE_ROW a"
  shows "get_version a stmt w =
     (0, \<lparr>engine = sqlite3_finalize a stmt (snd (sqlite3_step a stmt (engine w))),
          trace = trace w @ [Step stmt, Finalize stmt]\<rparr>)"
  using assms
  by (simp add: get_version_def call_step_def call_finalize_def Let_def case_prod_beta)

lemma get_version_row:
  assumes "fst (sqlite3_step a stmt (engine w)) = SQLITE_ROW a"
  shows "get_version a stmt w =
     (fst (sqlite3_column_int a stmt 0 (snd (sqlite3_step a stmt (engine w)))),
      \<lparr>engine = sqlite3_reset a stmt
                  (snd (sqlite3_column_int a stmt 0 (snd (sqlite3_step a stmt (engine w))))),
       trace = trace w @ cycle stmt\<rparr>)"
  using assms
  by (simp add: get_version_def call_step_def call_column_int_def call_reset_def cycle_def
        Let_def case_prod_beta)

text \<open>
  C7. When \<open>sqlite3_step\<close> returns anything but \<open>SQLITE_ROW\<close>, \<open>get_version\<close>
  finalizes the statement and returns 0, and its calls are the step and the
  finalize. When the step returns \<open>SQLITE_ROW\<close>, it reads column 0, resets the
  statement and returns the column value, and its calls are these three.
\<close>

theorem get_version_outcomes:
  "(fst (sqlite3_step a stmt (engine w)) \<noteq> SQLITE_ROW a \<longrightarrow>
      get_version a stmt w =
        (0, \<lparr>engine = sqlite3_finalize a stmt (snd (sqlite3_step a stmt (engine w))),
             trace = trace w @ [Step stmt, Finalize stmt]\<rparr>))
   \<and> (fst (sqlite3_step a stmt (engine w)) = SQLITE_ROW a \<longrightarrow>
      get_version a stmt w =
        (fst (sqlite3_column_int a stmt 0 (snd (sqlite3_step a stmt (engine w)))),
         \<lparr>engine = sqlite3_reset a stmt
                     (snd (sqlite3_column_int a stmt 0 (snd (sqlite3_step a stmt (engine w))))),
          trace = trace w @ [Step stmt, Column_int stmt 0, Reset stmt]\<rparr>))"
  using get_version_no_row [of a stmt w] get_version_row [of a stmt w]
  by (simp add: cycle_def)

theorem get_version_outcomes_witness:
  "fst (sqlite3_step (example_api 101) 2 (engine \<lparr>engine = 0, trace = []\<rparr>))
      \<noteq> SQLITE_ROW (example_api 101)
   \<and> get_version (example_api 101) 2 \<lparr>engine = 0, trace = []\<rparr>
      = (0, \<lparr>engine = 1, trace = [Step 2, Finalize 2 :: (nat, nat) event]\<rparr>)
   \<and> fst (sqlite3_step (example_api 100) 2 (engine \<lparr>engine = 0, trace = []\<rparr>))
      = SQLITE_ROW (example_api 100)
   \<and> get_version (example_api 100) 2 \<lparr>engine = 0, trace = []\<rparr>
      = (100, \<lparr>engine = 1, trace = [Step 2, Column_int 2 0, Reset 2 :: (nat, nat) event]\<rparr>)"
  using get_version_outcomes [of "example_api 101" 2 "\<lparr>engine = 0, trace = []\<rparr>"]
    get_version_outcomes [of "example_api 100" 2 "\<lparr>engine = 0, trace = []\<rparr>"]
  by (simp add: example_api_def)

subsection \<open>Counting over the iterations\<close>

lemma lines_printed_append [simp]:
  "lines_printed (xs @ ys) = lines_printed xs + lines_printed ys"
  by (simp add: lines_printed_def)

lemma steps_append [simp]: "steps (xs @ ys) = steps xs + steps ys"
  by (simp add: steps_def)

lemma get_version_counts:
  "lines_printed (trace (snd (get_version a stmt w))) = lines_printed (trace w)"
  "steps (trace (snd (get_version a stmt w))) = Suc (steps (trace w))"
proof -
  consider "fst (sqlite3_step a stmt (engine w)) = SQLITE_ROW a"
    | "fst (sqlite3_step a stmt (engine w)) \<noteq> SQLITE_ROW a" by blast
  then have "lines_printed (trace (snd (get_version a stmt w))) = lines_printed (trace w)
      \<and> steps (trace (snd (get_version a stmt w))) = Suc (steps (trace w))"
  proof cases
    case 1
    then show ?thesis
      by (simp add: get_version_row cycle_def lines_printed_def steps_def)
  next
    case 2
    then show ?thesis
      by (simp add: get_version_no_row lines_printed_def steps_def)
  qed
  then show "lines_printed (trace (snd (get_version a stmt w))) = lines_printed (trace w)"
    and "steps (trace (snd (get_version a stmt w))) = Suc (steps (trace w))"
    by simp_all
qed

lemma sint_succ:
  assumes "(i :: 32 word) <s c"
  shows "sint (i + 1) = sint i + 1"
proof -
  have "sint i < sint c"
    using assms by (simp add: word_sless_alt)
  moreover have "sint c < 2 ^ 31"
    using sint_lt [of c] by simp
  moreover have "- (2 ^ 31) \<le> sint i"
    using sint_ge [of i] by simp
  ultimately show ?thesis
    by (simp add: sint_word_ariths signed_take_bit_int_eq_self)
qed

lemma bench_loop_counts:
  "lines_printed (trace (bench_loop a stmt g i w)) = lines_printed (trace w)
   \<and> steps (trace (bench_loop a stmt g i w)) = steps (trace w) + nat (sint (count g) - sint i)"
proof (induction a stmt g i w rule: bench_loop.induct)
  case (1 a stmt g i w)
  show ?case
  proof (cases "i <s count g")
    case True
    have lt: "sint i < sint (count g)"
      using True by (simp add: word_sless_alt)
    have "nat (sint (count g) - sint (i + 1)) + 1 = nat (sint (count g) - sint i)"
      using lt by (simp add: sint_succ [OF True])
    with 1 [OF True] True show ?thesis
      by (simp add: bench_loop.simps [of a stmt g i w] get_version_counts)
  next
    case False
    then have "\<not> sint i < sint (count g)"
      by (simp add: word_sless_alt)
    with False show ?thesis
      by (simp add: bench_loop.simps [of a stmt g i w])
  qed
qed

lemma bench_loop_always_row:
  assumes "\<forall>e. fst (sqlite3_step a stmt e) = SQLITE_ROW a"
  shows "trace (bench_loop a stmt g i w) =
     trace w @ concat (replicate (nat (sint (count g) - sint i)) (cycle stmt))"
  using assms
proof (induction a stmt g i w rule: bench_loop.induct)
  case (1 a stmt g i w)
  show ?case
  proof (cases "i <s count g")
    case True
    have lt: "sint i < sint (count g)"
      using True by (simp add: word_sless_alt)
    have n: "nat (sint (count g) - sint i) = Suc (nat (sint (count g) - sint (i + 1)))"
      using lt by (simp add: sint_succ [OF True])
    have row: "fst (sqlite3_step a stmt (engine w)) = SQLITE_ROW a"
      using "1.prems" by simp
    from "1.IH" [OF True "1.prems"] True show ?thesis
      by (simp add: bench_loop.simps [of a stmt g i w] get_version_row [OF row] n)
  next
    case False
    then have "\<not> sint i < sint (count g)"
      by (simp add: word_sless_alt)
    with False show ?thesis
      by (simp add: bench_loop.simps [of a stmt g i w])
  qed
qed

lemma bench_trace:
  "\<exists>t0 t1. trace (bench a stmt g w) =
     trace (bench_loop a stmt g 0
              \<lparr>engine = snd (clock a (engine w)), trace = trace w @ [Clock]\<rparr>)
       @ [Clock, Printf timing_format t0 t1 (count g)]"
  by (simp add: bench_def call_clock_def call_printf_def Let_def case_prod_beta)

lemma timing_format_lines: "count_list timing_format (CHR 0x0A) = 1"
  by (simp add: timing_format_def)

lemma bench_counts:
  "lines_printed (trace (bench a stmt g w)) = Suc (lines_printed (trace w))"
  "steps (trace (bench a stmt g w)) = steps (trace w) + nat (sint (count g))"
proof -
  obtain t0 t1 where t: "trace (bench a stmt g w) =
     trace (bench_loop a stmt g 0
              \<lparr>engine = snd (clock a (engine w)), trace = trace w @ [Clock]\<rparr>)
       @ [Clock, Printf timing_format t0 t1 (count g)]"
    using bench_trace [of a stmt g w] by blast
  show "lines_printed (trace (bench a stmt g w)) = Suc (lines_printed (trace w))"
    by (simp add: t bench_loop_counts) (simp add: lines_printed_def timing_format_lines)
  show "steps (trace (bench a stmt g w)) = steps (trace w) + nat (sint (count g))"
    by (simp add: t bench_loop_counts) (simp add: steps_def)
qed

lemma main_loop_zero:
  assumes "total_g g = 0"
  shows "main_loop a stmt g w = Inr (g\<lparr>total_g := - 1\<rparr>, w)"
  using assms by (simp add: main_loop.simps [of a stmt g w])

lemma main_loop_step:
  assumes "total_g g \<noteq> 0" and "total_g g \<noteq> - 2147483648"
  shows "main_loop a stmt g w =
     main_loop a stmt (g\<lparr>total_g := total_g g - 1\<rparr>) (bench a stmt (g\<lparr>total_g := total_g g - 1\<rparr>) w)"
  using assms by (simp add: main_loop.simps [of a stmt g w] Let_def)

lemma main_loop_counts:
  assumes "0 \<le> sint (total_g g)"
  shows "\<exists>g' w'. main_loop a stmt g w = Inr (g', w')
     \<and> lines_printed (trace w') = lines_printed (trace w) + nat (sint (total_g g))
     \<and> steps (trace w') = steps (trace w) + nat (sint (total_g g)) * nat (sint (count g))"
  using assms
proof (induction a stmt g w rule: main_loop.induct)
  case (1 a stmt g w)
  show ?case
  proof (cases "total_g g = 0")
    case True
    then show ?thesis
      by (simp add: main_loop_zero)
  next
    case False
    let ?g1 = "g\<lparr>total_g := total_g g - 1\<rparr>"
    have "sint (total_g g) \<noteq> 0"
      using False signed_eq_0_iff [of "total_g g", where ?'a = int] by simp
    with "1.prems" have pos: "0 < sint (total_g g)"
      by simp
    have nmin: "total_g g \<noteq> - 2147483648"
      using pos by auto
    have dec: "sint (total_g g - 1) = sint (total_g g) - 1"
      using pos sint_lt [of "total_g g"]
      by (simp add: sint_word_ariths signed_take_bit_int_eq_self)
    have "0 \<le> sint (total_g ?g1)"
      using pos dec by simp
    from "1.IH" [OF refl nmin refl False this]
    obtain g' w' where
      r: "main_loop a stmt ?g1 (bench a stmt ?g1 w) = Inr (g', w')"
      and l: "lines_printed (trace w') =
               lines_printed (trace (bench a stmt ?g1 w)) + nat (sint (total_g ?g1))"
      and s: "steps (trace w') =
               steps (trace (bench a stmt ?g1 w)) + nat (sint (total_g ?g1)) * nat (sint (count ?g1))"
      by blast
    have n: "nat (sint (total_g g)) = Suc (nat (sint (total_g g) - 1))"
      using pos by simp
    have "main_loop a stmt g w = Inr (g', w')"
      using r by (simp add: main_loop_step [OF False nmin])
    moreover have "lines_printed (trace w') = lines_printed (trace w) + nat (sint (total_g g))"
      using l by (simp add: bench_counts dec n)
    moreover have "steps (trace w') =
        steps (trace w) + nat (sint (total_g g)) * nat (sint (count g))"
      using s by (simp add: bench_counts dec n)
    ultimately show ?thesis
      by blast
  qed
qed

lemma main_unfold:
  fixes a :: "('e, 'db, 'stmt) api"
  shows "\<exists>db stmt w7.
     trace w7 = trace w @ setup_trace (open_flags a) db
     \<and> (\<forall>f. main_loop a stmt (main_args a argv g) w7 = Inl f \<longrightarrow> main a argv g w = Inl f)
     \<and> (\<forall>g3 w8. main_loop a stmt (main_args a argv g) w7 = Inr (g3, w8) \<longrightarrow>
           (\<exists>w11. main a argv g w = Inr (g3, w11)
              \<and> trace w11 = trace w8 @ teardown_trace db stmt))"
proof -
  define e1 where "e1 = sqlite3_initialize a (engine w)"
  define db where "db = fst (sqlite3_open_v2 a '':memory:'' (open_flags a) e1)"
  define e2 where "e2 = snd (sqlite3_open_v2 a '':memory:'' (open_flags a) e1)"
  define stmt where "stmt = fst (sqlite3_prepare_v2 a db ''pragma user_version'' e2)"
  define e3 where "e3 = snd (sqlite3_prepare_v2 a db ''pragma user_version'' e2)"
  define w7 :: "('e, 'db, 'stmt) world" where "w7 =
    \<lparr>engine = sqlite3_exec a db ''PRAGMA user_version = 100''
       (sqlite3_exec a db ''PRAGMA locking_mode = exclusive''
         (sqlite3_exec a db ''PRAGMA temp_store = memory''
           (sqlite3_exec a db ''PRAGMA auto_vacuum = none'' e3))),
     trace = trace w @ setup_trace (open_flags a) db\<rparr>"
  have m: "main a argv g w =
     (case main_loop a stmt (main_args a argv g) w7 of
        Inl f \<Rightarrow> Inl f
      | Inr (g3, w8) \<Rightarrow>
          Inr (g3, \<lparr>engine = sqlite3_shutdown a (sqlite3_close a db (sqlite3_finalize a stmt (engine w8))),
                    trace = trace w8 @ teardown_trace db stmt\<rparr>))"
    by (simp add: main_def Let_def case_prod_beta open_flags_def setup_trace_def
        teardown_trace_def call_initialize_def call_open_v2_def call_prepare_v2_def
        call_exec_def call_finalize_def call_close_def call_shutdown_def
        e1_def db_def e2_def stmt_def e3_def w7_def cong: sum.case_cong)
  have "trace w7 = trace w @ setup_trace (open_flags a) db"
    by (simp add: w7_def)
  moreover have "\<forall>f. main_loop a stmt (main_args a argv g) w7 = Inl f \<longrightarrow> main a argv g w = Inl f"
    by (simp add: m)
  moreover have "\<forall>g3 w8. main_loop a stmt (main_args a argv g) w7 = Inr (g3, w8) \<longrightarrow>
           (\<exists>w11. main a argv g w = Inr (g3, w11)
              \<and> trace w11 = trace w8 @ teardown_trace db stmt)"
    by (simp add: m)
  ultimately show ?thesis
    by blast
qed

lemma setup_counts:
  "lines_printed (setup_trace flags db) = 0" "steps (setup_trace flags db) = 0"
  by (simp_all add: lines_printed_def steps_def setup_trace_def)

lemma teardown_counts:
  "lines_printed (teardown_trace db stmt) = 0" "steps (teardown_trace db stmt) = 0"
  by (simp_all add: lines_printed_def steps_def teardown_trace_def)

lemma main_args_cases:
  "length argv \<le> 1 \<Longrightarrow> main_args a argv g = g"
  "length argv = 2 \<Longrightarrow> main_args a argv g = g\<lparr>total_g := atoi a (argv ! 1)\<rparr>"
  "2 < length argv \<Longrightarrow>
     main_args a argv g = g\<lparr>total_g := atoi a (argv ! 1), count := atoi a (argv ! 2)\<rparr>"
  by (simp_all add: main_args_def)

lemma process_counts:
  fixes a :: "('e, 'db, 'stmt) api"
  assumes "0 \<le> sint (total_g (main_args a argv init_globals))"
  shows "\<exists>g' w'. process a argv e = Inr (g', w')
     \<and> lines_printed (trace w') = nat (sint (total_g (main_args a argv init_globals)))
     \<and> steps (trace w') = nat (sint (total_g (main_args a argv init_globals)))
          * nat (sint (count (main_args a argv init_globals)))"
proof -
  let ?w = "\<lparr>engine = e, trace = []\<rparr> :: ('e, 'db, 'stmt) world"
  let ?g = "main_args a argv init_globals"
  from main_unfold [of ?w a argv init_globals] obtain db stmt w7 where
    t7: "trace w7 = setup_trace (open_flags a) db"
    and m: "\<forall>g3 w8. main_loop a stmt ?g w7 = Inr (g3, w8) \<longrightarrow>
           (\<exists>w11. main a argv init_globals ?w = Inr (g3, w11)
              \<and> trace w11 = trace w8 @ teardown_trace db stmt)"
    by auto
  from main_loop_counts [OF assms, of a stmt w7] obtain g3 w8 where
    l: "main_loop a stmt ?g w7 = Inr (g3, w8)"
    and c: "lines_printed (trace w8) = lines_printed (trace w7) + nat (sint (total_g ?g))"
      "steps (trace w8) = steps (trace w7) + nat (sint (total_g ?g)) * nat (sint (count ?g))"
    by blast
  from m l obtain w11 where
    r: "main a argv init_globals ?w = Inr (g3, w11)"
    and t11: "trace w11 = trace w8 @ teardown_trace db stmt"
    by blast
  have "lines_printed (trace w11) = nat (sint (total_g ?g))"
    "steps (trace w11) = nat (sint (total_g ?g)) * nat (sint (count ?g))"
    by (simp_all add: t11 c t7 setup_counts teardown_counts)
  with r show ?thesis
    unfolding process_def by blast
qed

subsection \<open>Runs of the program\<close>

text \<open>
  C8. With the arguments read as 1 and 3 and an engine whose step always returns
  \<open>SQLITE_ROW\<close>, the program ends without fault and its trace is the setup, one
  clock reading, three times the cycle of step, read of column 0 and reset, a second
  clock reading, one \<open>printf\<close> of the timing line, and the teardown: one line is
  printed.
\<close>

theorem bench_one_batch_three_iterations:
  fixes a :: "('e, 'db, 'stmt) api"
  assumes "\<forall>stmt e. fst (sqlite3_step a stmt e) = SQLITE_ROW a"
    and "2 < length argv" and "atoi a (argv ! 1) = 1" and "atoi a (argv ! 2) = 3"
  shows "\<exists>g' w' db stmt t0 t1. process a argv e = Inr (g', w')
     \<and> trace w' = setup_trace (open_flags a) db @ [Clock]
          @ cycle stmt @ cycle stmt @ cycle stmt
          @ [Clock, Printf timing_format t0 t1 3] @ teardown_trace db stmt
     \<and> lines_printed (trace w') = 1"
proof -
  let ?w = "\<lparr>engine = e, trace = []\<rparr> :: ('e, 'db, 'stmt) world"
  let ?g = "\<lparr>total_g = 1, count = 3\<rparr>"
  let ?g1 = "\<lparr>total_g = 0, count = 3\<rparr>"
  have g: "main_args a argv init_globals = ?g"
    using assms(2,3,4) by (simp add: main_args_cases init_globals_def)
  from main_unfold [of ?w a argv init_globals] obtain db stmt w7 where
    t7: "trace w7 = setup_trace (open_flags a) db"
    and m: "\<forall>g3 w8. main_loop a stmt ?g w7 = Inr (g3, w8) \<longrightarrow>
           (\<exists>w11. main a argv init_globals ?w = Inr (g3, w11)
              \<and> trace w11 = trace w8 @ teardown_trace db stmt)"
    unfolding g by auto
  have row: "\<forall>e. fst (sqlite3_step a stmt e) = SQLITE_ROW a"
    using assms(1) by simp
  have loop: "main_loop a stmt ?g w7 = Inr (?g1\<lparr>total_g := - 1\<rparr>, bench a stmt ?g1 w7)"
    by (simp add: main_loop_step main_loop_zero)
  obtain t0 t1 where b: "trace (bench a stmt ?g1 w7) =
     trace (bench_loop a stmt ?g1 0
              \<lparr>engine = snd (clock a (engine w7)), trace = trace w7 @ [Clock]\<rparr>)
       @ [Clock, Printf timing_format t0 t1 (count ?g1)]"
    using bench_trace [of a stmt ?g1 w7] by blast
  have tb: "trace (bench a stmt ?g1 w7) =
      setup_trace (open_flags a) db @ [Clock] @ cycle stmt @ cycle stmt @ cycle stmt
        @ [Clock, Printf timing_format t0 t1 3]"
    by (simp add: b bench_loop_always_row [OF row] t7 eval_nat_numeral)
  from m loop obtain w11 where
    r: "main a argv init_globals ?w = Inr (?g1\<lparr>total_g := - 1\<rparr>, w11)"
    and t11: "trace w11 = trace (bench a stmt ?g1 w7) @ teardown_trace db stmt"
    by auto
  have tr: "trace w11 = setup_trace (open_flags a) db @ [Clock]
          @ cycle stmt @ cycle stmt @ cycle stmt
          @ [Clock, Printf timing_format t0 t1 3] @ teardown_trace db stmt"
    by (simp add: t11 tb)
  have "lines_printed (trace w11) = 1"
    by (simp add: tr lines_printed_def setup_trace_def teardown_trace_def cycle_def
        timing_format_lines)
  with r tr show ?thesis
    unfolding process_def by blast
qed

theorem bench_one_batch_three_iterations_witness:
  "(\<forall>stmt e. fst (sqlite3_step (example_api 100) stmt e) = SQLITE_ROW (example_api 100))
   \<and> 2 < length [''bench'', ''1'', ''3'']
   \<and> atoi (example_api 100) ([''bench'', ''1'', ''3''] ! 1) = 1
   \<and> atoi (example_api 100) ([''bench'', ''1'', ''3''] ! 2) = 3
   \<and> (\<exists>g' w' db stmt t0 t1. process (example_api 100) [''bench'', ''1'', ''3''] 0 = Inr (g', w')
     \<and> trace w' = setup_trace (open_flags (example_api 100)) db @ [Clock]
          @ cycle stmt @ cycle stmt @ cycle stmt
          @ [Clock, Printf timing_format t0 t1 3] @ teardown_trace db stmt
     \<and> lines_printed (trace w') = 1)"
proof -
  have h: "\<forall>stmt e. fst (sqlite3_step (example_api 100) stmt e) = SQLITE_ROW (example_api 100)"
    "2 < length [''bench'', ''1'', ''3'']"
    "atoi (example_api 100) ([''bench'', ''1'', ''3''] ! 1) = 1"
    "atoi (example_api 100) ([''bench'', ''1'', ''3''] ! 2) = 3"
    by (simp_all add: example_api_def digit_of_def)
  from h bench_one_batch_three_iterations [OF h, of 0] show ?thesis
    by blast
qed

text \<open>
  C9. Without arguments the batch count is 5 and the iterations per batch are
  1000000; a first argument replaces the batch count by its \<open>atoi\<close> value and a
  second one the iterations per batch. Every call of \<open>bench\<close> prints one line.
  For a batch count that is not negative the program ends without fault, prints as
  many lines as there are batches, and steps the statement once per iteration of
  every batch.
\<close>

theorem main_arguments_and_batches:
  fixes a :: "('e, 'db, 'stmt) api"
  shows "(length argv \<le> 1 \<longrightarrow>
            main_args a argv init_globals = \<lparr>total_g = 5, count = 1000000\<rparr>)
     \<and> (length argv = 2 \<longrightarrow>
            main_args a argv init_globals = \<lparr>total_g = atoi a (argv ! 1), count = 1000000\<rparr>)
     \<and> (2 < length argv \<longrightarrow>
            main_args a argv init_globals =
              \<lparr>total_g = atoi a (argv ! 1), count = atoi a (argv ! 2)\<rparr>)
     \<and> (\<forall>stmt g w. lines_printed (trace (bench a stmt g w)) = Suc (lines_printed (trace w)))
     \<and> (0 \<le> sint (total_g (main_args a argv init_globals)) \<longrightarrow>
           (\<exists>g' w'. process a argv e = Inr (g', w')
              \<and> lines_printed (trace w') = nat (sint (total_g (main_args a argv init_globals)))
              \<and> steps (trace w') = nat (sint (total_g (main_args a argv init_globals)))
                   * nat (sint (count (main_args a argv init_globals)))))"
  using process_counts [of a argv e]
  by (simp add: main_args_cases init_globals_def bench_counts)

theorem main_arguments_and_batches_witness:
  "length [''bench''] \<le> 1
   \<and> main_args (example_api 100) [''bench''] init_globals = \<lparr>total_g = 5, count = 1000000\<rparr>
   \<and> 0 \<le> sint (total_g (main_args (example_api 100) [''bench''] init_globals))
   \<and> (\<exists>g' w'. process (example_api 100) [''bench''] 0 = Inr (g', w')
          \<and> lines_printed (trace w') = 5 \<and> steps (trace w') = 5000000)
   \<and> length [''bench'', ''2''] = 2
   \<and> main_args (example_api 100) [''bench'', ''2''] init_globals = \<lparr>total_g = 2, count = 1000000\<rparr>
   \<and> 2 < length [''bench'', ''2'', ''3'']
   \<and> main_args (example_api 100) [''bench'', ''2'', ''3''] init_globals = \<lparr>total_g = 2, count = 3\<rparr>
   \<and> 0 \<le> sint (total_g (main_args (example_api 100) [''bench'', ''2'', ''3''] init_globals))
   \<and> (\<exists>g' w'. process (example_api 100) [''bench'', ''2'', ''3''] 0 = Inr (g', w')
          \<and> lines_printed (trace w') = 2 \<and> steps (trace w') = 6)"
proof -
  have a: "atoi (example_api 100) = example_atoi"
    by (simp add: example_api_def)
  have m1: "main_args (example_api 100) [''bench''] init_globals = \<lparr>total_g = 5, count = 1000000\<rparr>"
    using main_arguments_and_batches [of "[''bench'']" "example_api 100" 0] by simp
  have p1: "\<exists>g' w'. process (example_api 100) [''bench''] 0 = Inr (g', w')
          \<and> lines_printed (trace w') = 5 \<and> steps (trace w') = 5000000"
    using main_arguments_and_batches [of "[''bench'']" "example_api 100" 0] by (simp add: m1)
  have m2: "main_args (example_api 100) [''bench'', ''2''] init_globals
      = \<lparr>total_g = 2, count = 1000000\<rparr>"
    using main_arguments_and_batches [of "[''bench'', ''2'']" "example_api 100" 0]
    by (simp add: a digit_of_def)
  have m3: "main_args (example_api 100) [''bench'', ''2'', ''3''] init_globals
        = \<lparr>total_g = 2, count = 3\<rparr>"
    using main_arguments_and_batches [of "[''bench'', ''2'', ''3'']" "example_api 100" 0]
    by (simp add: a digit_of_def)
  have p3: "\<exists>g' w'. process (example_api 100) [''bench'', ''2'', ''3''] 0 = Inr (g', w')
          \<and> lines_printed (trace w') = 2 \<and> steps (trace w') = 6"
    using main_arguments_and_batches [of "[''bench'', ''2'', ''3'']" "example_api 100" 0]
    by (simp add: m3)
  from m1 p1 m2 m3 p3 show ?thesis
    by simp
qed

text \<open>
  C10. When the first argument reads as 0, the program ends without fault and its
  trace is the setup followed by the teardown: no clock reading, no step, no reset
  and no \<open>printf\<close>.
\<close>

theorem main_zero_batches:
  fixes a :: "('e, 'db, 'stmt) api"
  assumes "1 < length argv" and "atoi a (argv ! 1) = 0"
  shows "\<exists>g' w' db stmt. process a argv e = Inr (g', w')
     \<and> trace w' = setup_trace (open_flags a) db @ teardown_trace db stmt
     \<and> steps (trace w') = 0 \<and> lines_printed (trace w') = 0"
proof -
  let ?w = "\<lparr>engine = e, trace = []\<rparr> :: ('e, 'db, 'stmt) world"
  let ?g = "main_args a argv init_globals"
  have g: "total_g ?g = 0"
    using assms by (simp add: main_args_def Let_def)
  from main_unfold [of ?w a argv init_globals] obtain db stmt w7 where
    t7: "trace w7 = setup_trace (open_flags a) db"
    and m: "\<forall>g3 w8. main_loop a stmt ?g w7 = Inr (g3, w8) \<longrightarrow>
           (\<exists>w11. main a argv init_globals ?w = Inr (g3, w11)
              \<and> trace w11 = trace w8 @ teardown_trace db stmt)"
    by auto
  from m main_loop_zero [OF g, of a stmt w7] obtain w11 where
    r: "main a argv init_globals ?w = Inr (?g\<lparr>total_g := - 1\<rparr>, w11)"
    and t11: "trace w11 = trace w7 @ teardown_trace db stmt"
    by auto
  have tr: "trace w11 = setup_trace (open_flags a) db @ teardown_trace db stmt"
    by (simp add: t11 t7)
  have "steps (trace w11) = 0" "lines_printed (trace w11) = 0"
    by (simp_all add: tr setup_counts teardown_counts)
  with r tr show ?thesis
    unfolding process_def by blast
qed

theorem main_zero_batches_witness:
  "1 < length [''bench'', ''0''] \<and> atoi (example_api 100) ([''bench'', ''0''] ! 1) = 0
   \<and> (\<exists>g' w' db stmt. process (example_api 100) [''bench'', ''0''] 0 = Inr (g', w')
     \<and> trace w' = setup_trace (open_flags (example_api 100)) db @ teardown_trace db stmt
     \<and> steps (trace w') = 0 \<and> lines_printed (trace w') = 0)"
proof -
  have h: "1 < length [''bench'', ''0'']" "atoi (example_api 100) ([''bench'', ''0''] ! 1) = 0"
    by (simp_all add: example_api_def digit_of_def)
  from h main_zero_batches [OF h, of 0] show ?thesis
    by blast
qed

end
